theory Spec2Isabelle
  imports Complex_Main
begin

section \<open>Data model\<close>

text \<open>
  The placement code of \<^verbatim>\<open>Card-Creation.py\<close> works on Python numbers. Coordinates and
  sizes (Python \<^verbatim>\<open>int\<close> or \<^verbatim>\<open>float\<close>, and the numeric columns of the data frame) are
  modelled as exact rationals, and the arithmetic on them is exact. The code computes the
  collision test in binary floating point (\<^verbatim>\<open>0.1\<close> is not the rational 1/10, and every
  operation rounds), so the test of the code and the test of the model can differ where an
  expanded edge of the candidate meets an edge of an existing rectangle up to rounding; the
  runs evaluated below stay away from such inputs. Counters (\<^verbatim>\<open>attempts\<close>, \<^verbatim>\<open>max_attempts\<close>,
  \<^verbatim>\<open>increase_step_interval\<close>, the leg counters) are unbounded integers.

  One row of the data frame returned by \<^verbatim>\<open>get_items\<close>: only the four columns read by
  \<^verbatim>\<open>is_collision\<close> are kept, and every row is taken to hold numbers in them. The data
  frame is the list of its rows; \<^verbatim>\<open>existing_items.empty\<close> is the empty list. A frame
  without rows has no columns when \<^verbatim>\<open>get_items\<close> builds it (line 81), and reading a column
  of it raises \<^verbatim>\<open>KeyError\<close>.
\<close>

record item =
  item_x :: rat
  item_y :: rat
  item_width :: rat
  item_height :: rat

section \<open>Collision test\<close>

text \<open>
  \<^verbatim>\<open>is_collision(new_x, new_y, new_width, new_height, existing_items)\<close>. The vectorised
  comparisons are taken row by row; \<^verbatim>\<open>np.any\<close> of the elementwise conjunction is
  \<^const>\<open>list_ex\<close>. The arithmetic is exact, where the code rounds each operation to a
  float. The \<^verbatim>\<open>KeyError\<close> of the column read on a frame without rows is raised in
  \<open>find_free_position\<close> below, where the test is called.
\<close>

definition is_collision :: "rat \<Rightarrow> rat \<Rightarrow> rat \<Rightarrow> rat \<Rightarrow> item list \<Rightarrow> bool" where
  "is_collision new_x new_y new_width new_height existing_items =
     (let clear_x = new_width * (1 / 10);
          clear_y = new_height * (1 / 10);
          expanded_new_x = new_x - new_width / 2 - clear_x;
          expanded_new_y = new_y - new_height / 2 - clear_y;
          expanded_new_width = new_width + 2 * clear_x;
          expanded_new_height = new_height + 2 * clear_y
      in list_ex (\<lambda>e.
           let existing_top_left_x = item_x e - item_width e / 2;
               existing_top_left_y = item_y e - item_height e / 2;
               collision_x = (expanded_new_x + expanded_new_width \<ge> existing_top_left_x
                              \<and> expanded_new_x \<le> existing_top_left_x + item_width e);
               collision_y = (expanded_new_y + expanded_new_height \<ge> existing_top_left_y
                              \<and> expanded_new_y \<le> existing_top_left_y + item_height e)
           in collision_x \<and> collision_y) existing_items)"

section \<open>Spiral search\<close>

text \<open>
  The exceptions of the model: \<^verbatim>\<open>attempts % increase_step_interval\<close> with a zero interval,
  and the column read of \<^verbatim>\<open>is_collision\<close> (line 387) on a frame without rows. What the code
  prints is kept as a list of messages.
\<close>

datatype error = ZeroDivisionError | KeyError

datatype message =
    Unable_to_find_free_spot
  | Invalid_sticky_note_color string
  | Invalid_element_type

text \<open>
  The local variables of \<^verbatim>\<open>find_free_position\<close> that the loop changes (\<^verbatim>\<open>x\<close> and \<^verbatim>\<open>y\<close> are
  \<open>pos_x\<close> and \<open>pos_y\<close>).
\<close>

record search_state =
  pos_x :: rat
  pos_y :: rat
  step :: rat
  attempts :: int
  directions :: "(rat \<times> rat) list"
  direction_index :: nat
  steps_in_current_leg :: int
  steps_taken :: int
  leg_increase_triggered :: bool

text \<open>The assignments before the loop (lines 182 to 188).\<close>

definition initial_state :: "rat \<Rightarrow> rat \<Rightarrow> rat \<Rightarrow> search_state" where
  "initial_state x y initial_step =
     \<lparr>pos_x = x, pos_y = y, step = initial_step, attempts = 0,
      directions = [(initial_step, 0), (0, initial_step), (- initial_step, 0), (0, - initial_step)],
      direction_index = 0, steps_in_current_leg = 1, steps_taken = 0,
      leg_increase_triggered = False\<rparr>"

text \<open>
  One pass through the loop body (lines 191 to 205), for a non-zero interval; the zero
  interval is the exception branch of \<open>search_loop\<close> below.
\<close>

definition loop_body :: "rat \<Rightarrow> int \<Rightarrow> search_state \<Rightarrow> search_state" where
  "loop_body initial_step increase_step_interval s =
     (let (dx, dy) = directions s ! direction_index s;
          s1 = s\<lparr>pos_x := pos_x s + dx, pos_y := pos_y s + dy,
                 steps_taken := steps_taken s + 1, attempts := attempts s + 1\<rparr>;
          s2 = (if attempts s1 mod increase_step_interval = 0
                then (let st = step s1 + initial_step
                      in s1\<lparr>step := st,
                            directions := [(st, 0), (0, st), (- st, 0), (0, - st)]\<rparr>)
                else s1)
      in if steps_taken s2 = steps_in_current_leg s2
         then s2\<lparr>direction_index := (direction_index s2 + 1) mod 4,
                 steps_taken := 0,
                 steps_in_current_leg :=
                   (if leg_increase_triggered s2 then steps_in_current_leg s2 + 1
                    else steps_in_current_leg s2),
                 leg_increase_triggered := \<not> leg_increase_triggered s2\<rparr>
         else s2)"

text \<open>
  The \<^verbatim>\<open>while\<close> loop. Python evaluates \<^verbatim>\<open>is_collision(...)\<close> first at every loop head, and
  \<^verbatim>\<open>attempts < max_attempts\<close> only when it holds. Beside the outcome (the exception, or the
  state at loop exit) the function returns the positions at which \<^verbatim>\<open>is_collision\<close> was
  evaluated, in order: a ghost trace, one entry per loop head.
\<close>

function search_loop ::
    "rat \<Rightarrow> rat \<Rightarrow> item list \<Rightarrow> rat \<Rightarrow> int \<Rightarrow> int \<Rightarrow> search_state
       \<Rightarrow> (rat \<times> rat) list \<times> (error + search_state)" where
  "search_loop width height existing_items initial_step max_attempts increase_step_interval s =
     (if is_collision (pos_x s) (pos_y s) width height existing_items
         \<and> attempts s < max_attempts
      then (if increase_step_interval = 0
            then ([(pos_x s, pos_y s)], Inl ZeroDivisionError)
            else apfst (Cons (pos_x s, pos_y s))
                   (search_loop width height existing_items initial_step max_attempts
                      increase_step_interval (loop_body initial_step increase_step_interval s)))
      else ([(pos_x s, pos_y s)], Inr s))"
  by pat_completeness auto
termination
  by (relation "measure (\<lambda>(w, h, items, st0, maxa, gi, s). nat (maxa - attempts s))")
     (auto simp: loop_body_def Let_def split: prod.splits)

declare search_loop.simps [simp del]

text \<open>
  \<^verbatim>\<open>find_free_position\<close>: the returned pair \<^verbatim>\<open>(x, y)\<close> together with what was printed.
  On a frame without rows the first call of \<^verbatim>\<open>is_collision\<close>, at the first loop head,
  raises \<^verbatim>\<open>KeyError\<close>. \<open>visited_positions\<close> is the ghost trace of the same run.
\<close>

definition find_free_position ::
    "rat \<Rightarrow> rat \<Rightarrow> rat \<Rightarrow> rat \<Rightarrow> item list \<Rightarrow> rat \<Rightarrow> int \<Rightarrow> int
       \<Rightarrow> error + ((rat \<times> rat) \<times> message list)" where
  "find_free_position x y width height existing_items initial_step max_attempts
       increase_step_interval =
     (if existing_items = [] then Inl KeyError
      else case snd (search_loop width height existing_items initial_step max_attempts
                       increase_step_interval (initial_state x y initial_step)) of
             Inl e \<Rightarrow> Inl e
           | Inr s \<Rightarrow>
               Inr ((pos_x s, pos_y s),
                    (if attempts s = max_attempts then [Unable_to_find_free_spot] else [])))"

definition visited_positions ::
    "rat \<Rightarrow> rat \<Rightarrow> rat \<Rightarrow> rat \<Rightarrow> item list \<Rightarrow> rat \<Rightarrow> int \<Rightarrow> int \<Rightarrow> (rat \<times> rat) list" where
  "visited_positions x y width height existing_items initial_step max_attempts
       increase_step_interval =
     fst (search_loop width height existing_items initial_step max_attempts
            increase_step_interval (initial_state x y initial_step))"

text \<open>
  The state at the loop head after \<open>n\<close> passes through the loop body, whether or not the
  run gets that far: the states a run goes through are \<open>run_state \<dots> 0\<close>, \<open>run_state \<dots> 1\<close>
  and so on up to its last loop head.
\<close>

definition run_state :: "rat \<Rightarrow> rat \<Rightarrow> rat \<Rightarrow> int \<Rightarrow> nat \<Rightarrow> search_state" where
  "run_state x y initial_step increase_step_interval n =
     ((loop_body initial_step increase_step_interval) ^^ n) (initial_state x y initial_step)"

text \<open>
  Python raises \<^verbatim>\<open>OverflowError\<close> when \<^verbatim>\<open>is_collision\<close> turns an integer beyond the range of
  a float into a float; the model computes on. The calls on which this cannot happen are
  described by a bound well inside that range on every number the test converts: the sizes,
  the numbers of the rows, and the positions of the spiral (after \<open>k\<close> moves a coordinate is
  at most \<open>k * (k + 1)\<close> initial steps away from the anchor).
\<close>

definition within_float_range :: "rat \<Rightarrow> bool" where
  "within_float_range q = (\<bar>q\<bar> < 2 ^ 1000)"

definition item_within_float_range :: "item \<Rightarrow> bool" where
  "item_within_float_range e =
     (within_float_range (item_x e) \<and> within_float_range (item_y e)
      \<and> within_float_range (item_width e) \<and> within_float_range (item_height e))"

definition numbers_within_float_range ::
    "rat \<Rightarrow> rat \<Rightarrow> rat \<Rightarrow> rat \<Rightarrow> item list \<Rightarrow> rat \<Rightarrow> int \<Rightarrow> bool" where
  "numbers_within_float_range x y width height existing_items initial_step max_attempts =
     (within_float_range width \<and> within_float_range height
      \<and> list_all item_within_float_range existing_items
      \<and> within_float_range (\<bar>x\<bar> + \<bar>initial_step\<bar> * (\<bar>of_int max_attempts\<bar> + 1) ^ 2)
      \<and> within_float_range (\<bar>y\<bar> + \<bar>initial_step\<bar> * (\<bar>of_int max_attempts\<bar> + 1) ^ 2))"

section \<open>Colour validation\<close>

text \<open>
  \<^verbatim>\<open>validate_hex_color\<close> matches the pattern \<^verbatim>\<open>^#?([a-fA-F0-9]{6}|[a-fA-F0-9]{3})$\<close> with
  \<^verbatim>\<open>re.match\<close>. The matcher below follows the pattern piece by piece. Without the
  \<^verbatim>\<open>MULTILINE\<close> flag, Python's \<^verbatim>\<open>$\<close> matches at the end of the string and also just before
  a newline that is the last character of the string.
\<close>

definition hex_digit :: "char \<Rightarrow> bool" where
  "hex_digit c = (c \<in> set ''abcdefABCDEF0123456789'')"

definition at_dollar :: "string \<Rightarrow> bool" where
  "at_dollar rest = (rest = [] \<or> rest = [CHR 0x0A])"

definition hex_run_then_dollar :: "nat \<Rightarrow> string \<Rightarrow> bool" where
  "hex_run_then_dollar n s =
     (n \<le> length s \<and> list_all hex_digit (take n s) \<and> at_dollar (drop n s))"

definition hex_group_then_dollar :: "string \<Rightarrow> bool" where
  "hex_group_then_dollar s = (hex_run_then_dollar 6 s \<or> hex_run_then_dollar 3 s)"

definition hex_pattern_match :: "string \<Rightarrow> bool" where
  "hex_pattern_match color =
     (case color of
        [] \<Rightarrow> hex_group_then_dollar []
      | c # rest \<Rightarrow> (c = CHR ''#'' \<and> hex_group_then_dollar rest) \<or> hex_group_then_dollar color)"

definition startswith_hash :: "string \<Rightarrow> bool" where
  "startswith_hash color = (case color of [] \<Rightarrow> False | c # rest \<Rightarrow> c = CHR ''#'')"

definition validate_hex_color :: "string \<Rightarrow> string" where
  "validate_hex_color color =
     (if \<not> hex_pattern_match color then ''#00C1D4''
      else if \<not> startswith_hash color then CHR ''#'' # color
      else color)"

text \<open>
  The shape the result is expected to have: \<^verbatim>\<open>#\<close> followed by exactly three or exactly six
  hexadecimal digits.
\<close>

definition hex_color_shape :: "string \<Rightarrow> bool" where
  "hex_color_shape s =
     (case s of
        [] \<Rightarrow> False
      | c # digits \<Rightarrow> c = CHR ''#'' \<and> (length digits = 3 \<or> length digits = 6)
                       \<and> list_all hex_digit digits)"

definition validate_sticky_note_color :: "string \<Rightarrow> message list \<times> string" where
  "validate_sticky_note_color fillColor =
     (if fillColor \<notin> set [''gray'', ''light_yellow'', ''yellow'', ''orange'', ''light_green'',
                            ''green'', ''dark_green'', ''cyan'', ''light_pink'', ''pink'',
                            ''violet'', ''red'', ''light_blue'', ''blue'', ''dark_blue'', ''black'']
      then ([Invalid_sticky_note_color fillColor], ''yellow'')
      else ([], fillColor))"

section \<open>Placement\<close>

text \<open>
  \<^verbatim>\<open>title.replace("<br>", "")\<close> and \<^verbatim>\<open>title.count("<br>")\<close>: both scan from the left and
  skip over each occurrence found.
\<close>

fun replace_br :: "string \<Rightarrow> string" where
  "replace_br [] = []"
| "replace_br (c # cs) =
     (if take 4 (c # cs) = ''<br>'' then replace_br (drop 3 cs) else c # replace_br cs)"

fun count_br :: "string \<Rightarrow> nat" where
  "count_br [] = 0"
| "count_br (c # cs) =
     (if take 4 (c # cs) = ''<br>'' then Suc (count_br (drop 3 cs)) else count_br cs)"

definition adjust_card_height :: "string \<Rightarrow> rat \<Rightarrow> rat" where
  "adjust_card_height title height =
     (let title_length = int (length (replace_br title));
          extra_height = (if title_length > 13 then ((title_length - 1) div 13) * 25 else 0);
          line_breaks_height = int (count_br title) * 20
      in height + of_int extra_height + of_int line_breaks_height)"

text \<open>
  The request built by \<^verbatim>\<open>build_payload\<close>: the URL and the fields of the payload that
  depend on the arguments (the constant style entries of a shape and the constant rotation
  are left out). A sticky note has no width in its geometry.
\<close>

record payload =
  data_text :: string
  data_description :: "string option"
  data_shape :: "string option"
  style_color :: string
  position_x :: rat
  position_y :: rat
  geometry_height :: rat
  geometry_width :: "rat option"

definition build_payload ::
    "string \<Rightarrow> string \<Rightarrow> string \<Rightarrow> string option \<Rightarrow> string \<Rightarrow> string \<Rightarrow> rat \<Rightarrow> rat \<Rightarrow> rat \<Rightarrow> rat
       \<Rightarrow> message list \<times> (string \<times> payload) option" where
  "build_payload element_type board_id title description fillColor shape width height x y =
     (if element_type = ''card'' then
        ([], Some (''https://api.miro.com/v2/boards/'' @ board_id @ ''/cards'',
           \<lparr>data_text = title, data_description = description, data_shape = None,
            style_color = validate_hex_color fillColor,
            position_x = x, position_y = y,
            geometry_height = height, geometry_width = Some width\<rparr>))
      else if element_type = ''sticky_note'' then
        (case validate_sticky_note_color fillColor of
           (out, color) \<Rightarrow>
             (out, Some (''https://api.miro.com/v2/boards/'' @ board_id @ ''/sticky_notes'',
                \<lparr>data_text = title, data_description = None, data_shape = None,
                 style_color = color,
                 position_x = x, position_y = y,
                 geometry_height = height, geometry_width = None\<rparr>)))
      else if element_type = ''shape'' then
        ([], Some (''https://api.miro.com/v2/boards/'' @ board_id @ ''/shapes'',
           \<lparr>data_text = title, data_description = None, data_shape = Some shape,
            style_color = validate_hex_color fillColor,
            position_x = x, position_y = y,
            geometry_height = height, geometry_width = Some width\<rparr>))
      else ([Invalid_element_type], None))"

text \<open>
  \<^verbatim>\<open>create_miro_element\<close> up to the point where the request leaves the program. The data
  frame fetched by \<^verbatim>\<open>get_items(board_id)\<close> is the argument \<open>existing_items\<close>; the result is
  what was printed and the request handed to \<^verbatim>\<open>send_request\<close> (\<open>None\<close> when
  \<^verbatim>\<open>build_payload\<close> gave no URL and nothing is sent). The search is called with its default
  step, budget and interval.
\<close>

definition create_miro_element ::
    "string \<Rightarrow> string \<Rightarrow> string \<Rightarrow> string option \<Rightarrow> string \<Rightarrow> string \<Rightarrow> rat \<Rightarrow> rat \<Rightarrow> rat \<Rightarrow> rat
       \<Rightarrow> item list \<Rightarrow> error + (message list \<times> (string \<times> payload) option)" where
  "create_miro_element element_type board_id title description fillColor shape width height x y
       existing_items =
     (let height = (if element_type = ''card'' then adjust_card_height title height else height);
          width = max width 256
      in case (if existing_items \<noteq> []
               then find_free_position x y width height existing_items 50 10000 100
               else Inr ((x, y), [])) of
           Inl e \<Rightarrow> Inl e
         | Inr ((x, y), out) \<Rightarrow>
             (case build_payload element_type board_id title description fillColor shape
                     width height x y of
                (out', request) \<Rightarrow> Inr (out @ out', request)))"

section \<open>Spiral search: auxiliary facts\<close>

lemma loop_body_attempts: "attempts (loop_body st0 gi s) = attempts s + 1"
  by (simp add: loop_body_def Let_def split: prod.splits)

lemma search_loop_continue:
  "is_collision (pos_x s) (pos_y s) w h items \<Longrightarrow> attempts s < maxa \<Longrightarrow> gi \<noteq> 0 \<Longrightarrow>
   search_loop w h items st0 maxa gi s
     = apfst (Cons (pos_x s, pos_y s)) (search_loop w h items st0 maxa gi (loop_body st0 gi s))"
  by (subst search_loop.simps) simp

lemma search_loop_stop:
  "\<not> (is_collision (pos_x s) (pos_y s) w h items \<and> attempts s < maxa) \<Longrightarrow>
   search_loop w h items st0 maxa gi s = ([(pos_x s, pos_y s)], Inr s)"
  by (subst search_loop.simps) auto

lemma search_loop_raise:
  "is_collision (pos_x s) (pos_y s) w h items \<Longrightarrow> attempts s < maxa \<Longrightarrow>
   search_loop w h items st0 maxa 0 s = ([(pos_x s, pos_y s)], Inl ZeroDivisionError)"
  by (subst search_loop.simps) simp

lemma search_loop_trace_length:
  "int (length (fst (search_loop w h items st0 maxa gi s))) \<le> max 0 (maxa - attempts s) + 1"
proof (induction w h items st0 maxa gi s rule: search_loop.induct)
  case (1 w h items st0 maxa gi s)
  show ?case
  proof (cases "is_collision (pos_x s) (pos_y s) w h items \<and> attempts s < maxa")
    case False
    then show ?thesis by (simp add: search_loop_stop)
  next
    case True
    show ?thesis
    proof (cases "gi = 0")
      case True
      with \<open>is_collision (pos_x s) (pos_y s) w h items \<and> attempts s < maxa\<close>
      show ?thesis by (simp add: search_loop_raise)
    next
      case False
      with True "1.IH" have "int (length (fst (search_loop w h items st0 maxa gi (loop_body st0 gi s))))
          \<le> max 0 (maxa - attempts (loop_body st0 gi s)) + 1" by simp
      with True False show ?thesis
        by (simp add: search_loop_continue loop_body_attempts)
    qed
  qed
qed

lemma search_loop_trace_head:
  "\<exists>rest. fst (search_loop w h items st0 maxa gi s) = (pos_x s, pos_y s) # rest"
  by (subst search_loop.simps) simp

lemma search_loop_result:
  "gi \<noteq> 0 \<Longrightarrow>
   \<exists>s'. snd (search_loop w h items st0 maxa gi s) = Inr s'
       \<and> (pos_x s', pos_y s') = last (fst (search_loop w h items st0 maxa gi s))
       \<and> \<not> (is_collision (pos_x s') (pos_y s') w h items \<and> attempts s' < maxa)
       \<and> attempts s \<le> attempts s'
       \<and> (attempts s \<le> maxa \<longrightarrow> attempts s' \<le> maxa)"
proof (induction w h items st0 maxa gi s rule: search_loop.induct)
  case (1 w h items st0 maxa gi s)
  show ?case
  proof (cases "is_collision (pos_x s) (pos_y s) w h items \<and> attempts s < maxa")
    case False
    then show ?thesis by (simp add: search_loop_stop)
  next
    case True
    let ?n = "loop_body st0 gi s"
    from True "1.prems" "1.IH" obtain s' where
      s': "snd (search_loop w h items st0 maxa gi ?n) = Inr s'"
          "(pos_x s', pos_y s') = last (fst (search_loop w h items st0 maxa gi ?n))"
          "\<not> (is_collision (pos_x s') (pos_y s') w h items \<and> attempts s' < maxa)"
          "attempts ?n \<le> attempts s'"
          "attempts ?n \<le> maxa \<longrightarrow> attempts s' \<le> maxa"
      by blast
    obtain rest where rest: "fst (search_loop w h items st0 maxa gi ?n) = (pos_x ?n, pos_y ?n) # rest"
      using search_loop_trace_head by blast
    have eq: "search_loop w h items st0 maxa gi s
        = apfst (Cons (pos_x s, pos_y s)) (search_loop w h items st0 maxa gi ?n)"
      using True "1.prems" by (simp add: search_loop_continue)
    show ?thesis
      using s' rest True unfolding eq by (intro exI[of _ s']) (simp add: loop_body_attempts)
  qed
qed

lemma search_loop_isl:
  "isl (snd (search_loop w h items st0 maxa gi s))
     = (gi = 0 \<and> is_collision (pos_x s) (pos_y s) w h items \<and> attempts s < maxa)"
proof (cases "gi = 0")
  case True
  then show ?thesis
    by (cases "is_collision (pos_x s) (pos_y s) w h items \<and> attempts s < maxa")
       (auto simp: search_loop_raise search_loop_stop)
next
  case False
  then show ?thesis using search_loop_result[OF False, of w h items st0 maxa s] by auto
qed



lemma search_loop_trace_count:
  "gi \<noteq> 0 \<Longrightarrow> snd (search_loop w h items st0 maxa gi s) = Inr s' \<Longrightarrow>
   int (length (fst (search_loop w h items st0 maxa gi s))) = attempts s' - attempts s + 1"
proof (induction w h items st0 maxa gi s rule: search_loop.induct)
  case (1 w h items st0 maxa gi s)
  show ?case
  proof (cases "is_collision (pos_x s) (pos_y s) w h items \<and> attempts s < maxa")
    case False
    with "1.prems" show ?thesis by (simp add: search_loop_stop)
  next
    case True
    have eq: "search_loop w h items st0 maxa gi s
        = apfst (Cons (pos_x s, pos_y s))
            (search_loop w h items st0 maxa gi (loop_body st0 gi s))"
      using True "1.prems" by (simp add: search_loop_continue)
    with "1.prems" have "snd (search_loop w h items st0 maxa gi (loop_body st0 gi s)) = Inr s'"
      by simp
    with True "1.prems" "1.IH" have
      "int (length (fst (search_loop w h items st0 maxa gi (loop_body st0 gi s))))
         = attempts s' - attempts (loop_body st0 gi s) + 1" by simp
    then show ?thesis unfolding eq by (simp add: loop_body_attempts)
  qed
qed


lemma find_free_position_isl:
  "isl (find_free_position x y w h items st0 maxa gi)
     = (items = [] \<or> (gi = 0 \<and> is_collision x y w h items \<and> 0 < maxa))"
proof (cases "items = []")
  case True
  then show ?thesis by (simp add: find_free_position_def)
next
  case False
  then have "isl (find_free_position x y w h items st0 maxa gi)
      = isl (snd (search_loop w h items st0 maxa gi (initial_state x y st0)))"
    by (simp add: find_free_position_def split: sum.splits)
  also have "\<dots> = (gi = 0 \<and> is_collision x y w h items \<and> 0 < maxa)"
    by (simp add: search_loop_isl initial_state_def)
  finally show ?thesis using False by simp
qed

lemma take_trace_continue:
  "is_collision (pos_x s) (pos_y s) w h items \<Longrightarrow> attempts s < maxa \<Longrightarrow> gi \<noteq> 0 \<Longrightarrow> 0 < n \<Longrightarrow>
   take n (fst (search_loop w h items st0 maxa gi s))
     = (pos_x s, pos_y s)
         # take (n - 1) (fst (search_loop w h items st0 maxa gi (loop_body st0 gi s)))"
  by (cases n) (simp_all add: search_loop_continue)

lemma take_trace_one:
  "take (Suc 0) (fst (search_loop w h items st0 maxa gi s)) = [(pos_x s, pos_y s)]"
  using search_loop_trace_head[of w h items st0 maxa gi s] by auto

lemma loop_body_step:
  "step (loop_body st0 gi s) = (if (attempts s + 1) mod gi = 0 then step s + st0 else step s)"
  by (simp add: loop_body_def Let_def split: prod.splits)

lemma loop_body_directions:
  "directions (loop_body st0 gi s)
     = (if (attempts s + 1) mod gi = 0
        then [(step s + st0, 0), (0, step s + st0), (- (step s + st0), 0), (0, - (step s + st0))]
        else directions s)"
  by (simp add: loop_body_def Let_def split: prod.splits)

lemma loop_body_steps_taken:
  "steps_taken (loop_body st0 gi s)
     = (if steps_taken s + 1 = steps_in_current_leg s then 0 else steps_taken s + 1)"
  by (simp add: loop_body_def Let_def split: prod.splits)

lemma loop_body_steps_in_current_leg:
  "steps_in_current_leg (loop_body st0 gi s)
     = (if steps_taken s + 1 = steps_in_current_leg s \<and> leg_increase_triggered s
        then steps_in_current_leg s + 1 else steps_in_current_leg s)"
  by (simp add: loop_body_def Let_def split: prod.splits)

lemma run_state_Suc:
  "run_state x y st0 gi (Suc n) = loop_body st0 gi (run_state x y st0 gi n)"
  by (simp add: run_state_def)

lemma run_state_attempts: "attempts (run_state x y st0 gi n) = int n"
  by (induction n) (simp_all add: run_state_Suc loop_body_attempts, simp add: run_state_def initial_state_def)

lemma run_state_directions:
  "directions (run_state x y st0 gi n)
     = [(step (run_state x y st0 gi n), 0), (0, step (run_state x y st0 gi n)),
        (- step (run_state x y st0 gi n), 0), (0, - step (run_state x y st0 gi n))]"
proof (induction n)
  case 0
  show ?case by (simp add: run_state_def initial_state_def)
next
  case (Suc n)
  then show ?case by (simp add: run_state_Suc loop_body_directions loop_body_step)
qed

lemma run_state_step_multiple:
  "\<exists>k::nat. step (run_state x y st0 gi n) = st0 * of_nat (Suc k)"
proof (induction n)
  case 0
  have "step (run_state x y st0 gi 0) = st0 * of_nat (Suc 0)"
    by (simp add: run_state_def initial_state_def)
  then show ?case by blast
next
  case (Suc n)
  then obtain k :: nat where k: "step (run_state x y st0 gi n) = st0 * of_nat (Suc k)" by blast
  show ?case
  proof (cases "(attempts (run_state x y st0 gi n) + 1) mod gi = 0")
    case True
    then have "step (run_state x y st0 gi (Suc n)) = st0 * of_nat (Suc (Suc k))"
      using k by (simp add: run_state_Suc loop_body_step algebra_simps)
    then show ?thesis by blast
  next
    case False
    then have "step (run_state x y st0 gi (Suc n)) = st0 * of_nat (Suc k)"
      using k by (simp add: run_state_Suc loop_body_step)
    then show ?thesis by blast
  qed
qed

lemma run_state_step_mono_Suc:
  "\<bar>step (run_state x y st0 gi n)\<bar> \<le> \<bar>step (run_state x y st0 gi (Suc n))\<bar>"
proof -
  obtain k :: nat where k: "step (run_state x y st0 gi n) = st0 * of_nat (Suc k)"
    using run_state_step_multiple by blast
  have "\<bar>st0 * of_nat (Suc k)\<bar> \<le> \<bar>st0 * of_nat (Suc k) + st0\<bar>"
  proof -
    have "st0 * of_nat (Suc k) + st0 = st0 * of_nat (Suc (Suc k))" by (simp add: algebra_simps)
    moreover have "\<bar>st0 * of_nat (Suc k)\<bar> = \<bar>st0\<bar> * of_nat (Suc k)"
      by (simp only: abs_mult abs_of_nat)
    moreover have "\<bar>st0 * of_nat (Suc (Suc k))\<bar> = \<bar>st0\<bar> * of_nat (Suc (Suc k))"
      by (simp only: abs_mult abs_of_nat)
    moreover have "\<bar>st0\<bar> * of_nat (Suc k) \<le> \<bar>st0\<bar> * of_nat (Suc (Suc k))"
      by (intro mult_left_mono) simp_all
    ultimately show ?thesis by simp
  qed
  with k show ?thesis by (simp add: run_state_Suc loop_body_step)
qed

lemma run_state_step_mono:
  "\<bar>step (run_state x y st0 gi n)\<bar> \<le> \<bar>step (run_state x y st0 gi (n + k))\<bar>"
proof (induction k)
  case 0
  show ?case by simp
next
  case (Suc k)
  from Suc run_state_step_mono_Suc[of x y st0 gi "n + k"] show ?case by simp
qed

lemma search_loop_iterates:
  "gi \<noteq> 0 \<Longrightarrow>
   \<exists>n. snd (search_loop w h items st0 maxa gi s) = Inr ((loop_body st0 gi ^^ n) s)
      \<and> fst (search_loop w h items st0 maxa gi s)
          = map (\<lambda>k. (pos_x ((loop_body st0 gi ^^ k) s), pos_y ((loop_body st0 gi ^^ k) s)))
              [0..<Suc n]"
proof (induction w h items st0 maxa gi s rule: search_loop.induct)
  case (1 w h items st0 maxa gi s)
  show ?case
  proof (cases "is_collision (pos_x s) (pos_y s) w h items \<and> attempts s < maxa")
    case False
    then have "search_loop w h items st0 maxa gi s = ([(pos_x s, pos_y s)], Inr s)"
      by (rule search_loop_stop)
    then show ?thesis by (intro exI[of _ 0]) simp
  next
    case True
    let ?f = "loop_body st0 gi"
    from True "1.prems" "1.IH" obtain n where
      n: "snd (search_loop w h items st0 maxa gi (?f s)) = Inr ((?f ^^ n) (?f s))"
         "fst (search_loop w h items st0 maxa gi (?f s))
            = map (\<lambda>k. (pos_x ((?f ^^ k) (?f s)), pos_y ((?f ^^ k) (?f s)))) [0..<Suc n]"
      by blast
    have eq: "search_loop w h items st0 maxa gi s
        = apfst (Cons (pos_x s, pos_y s)) (search_loop w h items st0 maxa gi (?f s))"
      using True "1.prems" by (simp add: search_loop_continue)
    have shift: "map (\<lambda>k. (pos_x ((?f ^^ k) (?f s)), pos_y ((?f ^^ k) (?f s)))) [0..<Suc n]
        = map (\<lambda>k. (pos_x ((?f ^^ k) s), pos_y ((?f ^^ k) s))) (map Suc [0..<Suc n])"
      by (simp only: map_map o_def funpow_Suc_right)
    have "map (\<lambda>k. (pos_x ((?f ^^ k) s), pos_y ((?f ^^ k) s))) [0..<Suc (Suc n)]
        = (pos_x s, pos_y s) # map (\<lambda>k. (pos_x ((?f ^^ k) s), pos_y ((?f ^^ k) s))) (map Suc [0..<Suc n])"
      by (simp only: map_Suc_upt upt_conv_Cons[of 0 "Suc (Suc n)"]) simp
    with n shift have
      "snd (search_loop w h items st0 maxa gi s) = Inr ((?f ^^ Suc n) s)
       \<and> fst (search_loop w h items st0 maxa gi s)
          = map (\<lambda>k. (pos_x ((?f ^^ k) s), pos_y ((?f ^^ k) s))) [0..<Suc (Suc n)]"
      unfolding eq by (simp add: funpow_swap1)
    then show ?thesis by blast
  qed
qed

lemma loop_body_direction_index: "direction_index (loop_body st0 gi s) < 4 \<or> direction_index (loop_body st0 gi s) = direction_index s"
  by (simp add: loop_body_def Let_def split: prod.splits)

lemma run_state_direction_index: "direction_index (run_state x y st0 gi n) < 4"
proof (induction n)
  case 0
  show ?case by (simp add: run_state_def initial_state_def)
next
  case (Suc n)
  with loop_body_direction_index[of st0 gi "run_state x y st0 gi n"] show ?case
    by (auto simp: run_state_Suc)
qed

lemma loop_body_position:
  "pos_x (loop_body st0 gi s) = pos_x s + fst (directions s ! direction_index s)"
  "pos_y (loop_body st0 gi s) = pos_y s + snd (directions s ! direction_index s)"
  by (simp_all add: loop_body_def Let_def split: prod.splits)

lemma run_state_move_bound:
  "\<bar>pos_x (run_state x y st0 gi (Suc n)) - pos_x (run_state x y st0 gi n)\<bar>
      \<le> \<bar>step (run_state x y st0 gi n)\<bar>
   \<and> \<bar>pos_y (run_state x y st0 gi (Suc n)) - pos_y (run_state x y st0 gi n)\<bar>
      \<le> \<bar>step (run_state x y st0 gi n)\<bar>"
proof -
  let ?s = "run_state x y st0 gi n"
  have "direction_index ?s < 4" by (rule run_state_direction_index)
  then consider "direction_index ?s = 0" | "direction_index ?s = 1"
      | "direction_index ?s = 2" | "direction_index ?s = 3"
    by linarith
  then show ?thesis
    by cases (simp_all add: run_state_Suc loop_body_position run_state_directions[of x y st0 gi n]
                numeral_2_eq_2 numeral_3_eq_3)
qed

lemma run_state_step_bound: "\<bar>step (run_state x y st0 gi n)\<bar> \<le> \<bar>st0\<bar> * (of_nat n + 1)"
proof (induction n)
  case 0
  show ?case by (simp add: run_state_def initial_state_def)
next
  case (Suc n)
  have "\<bar>step (run_state x y st0 gi (Suc n))\<bar> \<le> \<bar>step (run_state x y st0 gi n)\<bar> + \<bar>st0\<bar>"
    using abs_triangle_ineq[of "step (run_state x y st0 gi n)" st0]
    by (simp add: run_state_Suc loop_body_step)
  with Suc show ?case by (simp add: algebra_simps)
qed

lemma run_state_position_bound:
  "\<bar>pos_x (run_state x y st0 gi n) - x\<bar> \<le> \<bar>st0\<bar> * (of_nat n + 1) ^ 2
   \<and> \<bar>pos_y (run_state x y st0 gi n) - y\<bar> \<le> \<bar>st0\<bar> * (of_nat n + 1) ^ 2"
proof (induction n)
  case 0
  show ?case by (simp add: run_state_def initial_state_def)
next
  case (Suc n)
  let ?a = "\<bar>st0\<bar>"
  have st: "\<bar>step (run_state x y st0 gi n)\<bar> \<le> ?a * (of_nat n + 1)"
    by (rule run_state_step_bound)
  have grow: "?a * (of_nat n + 1) ^ 2 + ?a * (of_nat n + 1) \<le> ?a * (of_nat (Suc n) + 1) ^ 2"
  proof -
    have "?a * (of_nat (Suc n) + 1) ^ 2
        = ?a * (of_nat n + 1) ^ 2 + ?a * (of_nat n + 1) + ?a * (of_nat n + 2)"
      by (simp add: power2_eq_square algebra_simps)
    moreover have "0 \<le> ?a * (of_nat n + 2)" by simp
    ultimately show ?thesis by linarith
  qed
  from run_state_move_bound[of x y st0 gi n] st Suc grow show ?case
    by (intro conjI) linarith+
qed

text \<open>
  The bound of \<open>numbers_within_float_range\<close> covers every position at which the collision
  test is evaluated.
\<close>

lemma visited_positions_within_float_range:
  assumes "numbers_within_float_range x y width height existing_items initial_step max_attempts"
    and "increase_step_interval \<noteq> 0"
  shows "list_all (\<lambda>(px, py). within_float_range px \<and> within_float_range py)
           (visited_positions x y width height existing_items initial_step max_attempts
              increase_step_interval)"
proof -
  let ?R = "run_state x y initial_step increase_step_interval"
  let ?v = "visited_positions x y width height existing_items initial_step max_attempts
              increase_step_interval"
  from search_loop_iterates[OF assms(2), of width height existing_items initial_step
         max_attempts "initial_state x y initial_step"]
  obtain m where m: "?v = map (\<lambda>k. (pos_x (?R k), pos_y (?R k))) [0..<Suc m]"
    unfolding visited_positions_def run_state_def by blast
  have "int (length ?v) \<le> max 0 max_attempts + 1"
    using search_loop_trace_length[of width height existing_items initial_step max_attempts
            increase_step_interval "initial_state x y initial_step"]
    by (simp add: visited_positions_def initial_state_def)
  with m have mb: "int m \<le> \<bar>max_attempts\<bar>" by simp
  have bx: "\<bar>x\<bar> + \<bar>initial_step\<bar> * (\<bar>of_int max_attempts\<bar> + 1) ^ 2 < 2 ^ 1000"
    and "by": "\<bar>y\<bar> + \<bar>initial_step\<bar> * (\<bar>of_int max_attempts\<bar> + 1) ^ 2 < 2 ^ 1000"
    using assms(1) by (simp_all add: numbers_within_float_range_def within_float_range_def)
  have "within_float_range (pos_x (?R k)) \<and> within_float_range (pos_y (?R k))" if "k \<le> m" for k
  proof -
    from that mb have "(of_nat k :: rat) \<le> \<bar>of_int max_attempts\<bar>"
      by (metis (mono_tags) of_int_abs of_int_le_iff of_int_of_nat_eq of_nat_le_iff order_trans)
    then have "(of_nat k + 1 :: rat) ^ 2 \<le> (\<bar>of_int max_attempts\<bar> + 1) ^ 2"
      by (intro power_mono) simp_all
    then have "\<bar>initial_step\<bar> * (of_nat k + 1) ^ 2
        \<le> \<bar>initial_step\<bar> * (\<bar>of_int max_attempts\<bar> + 1) ^ 2"
      by (intro mult_left_mono) simp_all
    with run_state_position_bound[of x y initial_step increase_step_interval k] bx "by"
    show ?thesis unfolding within_float_range_def by (intro conjI) linarith+
  qed
  then show ?thesis unfolding m by (auto simp: list_all_iff)
qed

section \<open>Placement: auxiliary facts\<close>

lemma create_miro_element_places_at_search_result:
  "\<exists>px py out out' request.
      (if existing_items = [] then Inr ((x, y), [])
       else find_free_position x y (max width 256)
              (if element_type = ''card'' then adjust_card_height title height else height)
              existing_items 50 10000 100) = Inr ((px, py), out)
    \<and> build_payload element_type board_id title description fillColor shape (max width 256)
          (if element_type = ''card'' then adjust_card_height title height else height)
          px py = (out', request)
    \<and> create_miro_element element_type board_id title description fillColor shape
          width height x y existing_items = Inr (out @ out', request)"
proof -
  let ?h = "if element_type = ''card'' then adjust_card_height title height else height"
  let ?f = "if existing_items = [] then Inr ((x, y), [])
            else find_free_position x y (max width 256) ?h existing_items 50 10000 100"
  have "\<not> isl ?f" by (simp add: find_free_position_isl)
  then obtain px py out where f: "?f = Inr ((px, py), out)"
    by (cases ?f) auto
  obtain out' request where b: "build_payload element_type board_id title description fillColor
      shape (max width 256) ?h px py = (out', request)"
    by (cases "build_payload element_type board_id title description fillColor
      shape (max width 256) ?h px py") auto
  have "create_miro_element element_type board_id title description fillColor shape
          width height x y existing_items = Inr (out @ out', request)"
  proof (cases "existing_items = []")
    case True
    with f have "px = x" "py = y" "out = []" by simp_all
    with True b show ?thesis by (simp add: create_miro_element_def Let_def)
  next
    case False
    with f b show ?thesis by (simp add: create_miro_element_def Let_def)
  qed
  with f b show ?thesis by blast
qed

lemma replace_br_length: "length (replace_br t) + 4 * count_br t = length t"
proof (induction t rule: replace_br.induct)
  case 1
  show ?case by simp
next
  case (2 c cs)
  show ?case
  proof (cases "take 4 (c # cs) = ''<br>''")
    case True
    have "length (take 4 (c # cs)) = length ''<br>''" by (simp only: True)
    then have len: "3 \<le> length cs" by simp
    have ih: "length (replace_br (drop 3 cs)) + 4 * count_br (drop 3 cs) = length (drop 3 cs)"
      using "2.IH"(1)[OF True] .
    have r: "replace_br (c # cs) = replace_br (drop 3 cs)"
      using True by (simp only: replace_br.simps if_True simp_thms)
    have k: "count_br (c # cs) = Suc (count_br (drop 3 cs))"
      using True by (simp only: count_br.simps if_True simp_thms)
    from len ih show ?thesis unfolding r k by simp
  next
    case False
    have ih: "length (replace_br cs) + 4 * count_br cs = length cs"
      using "2.IH"(2)[OF False] .
    have r: "replace_br (c # cs) = c # replace_br cs"
      using False by (simp only: replace_br.simps if_False simp_thms)
    have k: "count_br (c # cs) = count_br cs"
      using False by (simp only: count_br.simps if_False simp_thms)
    from ih show ?thesis unfolding r k by simp
  qed
qed

lemma adjust_card_height_closed_form:
  "adjust_card_height title height
     = height
       + of_int (if int (length title) - 4 * int (count_br title) > 13
                 then ((int (length title) - 4 * int (count_br title) - 1) div 13) * 25 else 0)
       + of_int (int (count_br title) * 20)"
proof -
  have "int (length (replace_br title)) = int (length title) - 4 * int (count_br title)"
    using replace_br_length[of title] by linarith
  then show ?thesis by (simp add: adjust_card_height_def Let_def)
qed

lemma build_payload_height:
  "map_option (\<lambda>(url, p). geometry_height p)
      (snd (build_payload element_type board_id title description fillColor shape width height x y))
     = (if element_type \<in> set [''card'', ''sticky_note'', ''shape''] then Some height else None)"
  by (simp add: build_payload_def split: prod.splits)

lemma build_payload_position:
  "map_option (\<lambda>(url, p). (position_x p, position_y p))
      (snd (build_payload element_type board_id title description fillColor shape width height x y))
     = (if element_type \<in> set [''card'', ''sticky_note'', ''shape''] then Some (x, y) else None)"
  by (simp add: build_payload_def split: prod.splits)

section \<open>Colour validation: auxiliary facts\<close>

lemma hex_digit_hash: "\<not> hex_digit (CHR ''#'')" and hex_digit_newline: "\<not> hex_digit (CHR 0x0A)"
  by (simp_all add: hex_digit_def)

lemma hex_run_then_dollar_cases:
  "hex_run_then_dollar n s
     = ((length s = n \<and> list_all hex_digit s)
        \<or> (\<exists>body. s = body @ [CHR 0x0A] \<and> length body = n \<and> list_all hex_digit body))"
proof
  assume h: "hex_run_then_dollar n s"
  then have n: "n \<le> length s" and hex: "list_all hex_digit (take n s)"
    and d: "drop n s = [] \<or> drop n s = [CHR 0x0A]"
    by (simp_all add: hex_run_then_dollar_def at_dollar_def)
  from d show "(length s = n \<and> list_all hex_digit s)
        \<or> (\<exists>body. s = body @ [CHR 0x0A] \<and> length body = n \<and> list_all hex_digit body)"
  proof
    assume "drop n s = []"
    with n hex show ?thesis by simp
  next
    assume e: "drop n s = [CHR 0x0A]"
    have "s = take n s @ drop n s" by simp
    with e have "s = take n s @ [CHR 0x0A]" by simp
    moreover from n have "length (take n s) = n" by simp
    ultimately show ?thesis using hex by blast
  qed
next
  assume "(length s = n \<and> list_all hex_digit s)
        \<or> (\<exists>body. s = body @ [CHR 0x0A] \<and> length body = n \<and> list_all hex_digit body)"
  then show "hex_run_then_dollar n s"
    by (auto simp: hex_run_then_dollar_def at_dollar_def)
qed

lemma hex_digits_last:
  assumes "list_all hex_digit s" and "s \<noteq> []"
  shows "last s \<noteq> CHR 0x0A"
proof
  assume e: "last s = CHR 0x0A"
  from assms(2) have "last s \<in> set s" by (rule last_in_set)
  with assms(1) have "hex_digit (last s)" by (simp add: list_all_iff)
  with e show False by (simp add: hex_digit_newline)
qed

text \<open>
  Apart from an accepted input that ends in a newline, the result always has the shape of
  a hexadecimal colour code.
\<close>

lemma validate_hex_color_shape_iff:
  "hex_color_shape (validate_hex_color color)
     = (\<not> (hex_pattern_match color \<and> color \<noteq> [] \<and> last color = CHR 0x0A))"
proof (cases "hex_pattern_match color")
  case False
  then show ?thesis by (simp add: validate_hex_color_def hex_color_shape_def hex_digit_def)
next
  case True
  show ?thesis
  proof (cases color)
    case Nil
    with True show ?thesis
      by (simp add: hex_pattern_match_def hex_group_then_dollar_def hex_run_then_dollar_def)
  next
    case (Cons c rest)
    show ?thesis
    proof (cases "c = CHR ''#''")
      case False
      with True Cons have g: "hex_group_then_dollar color" by (simp add: hex_pattern_match_def)
      from False Cons have v: "validate_hex_color color = CHR ''#'' # color"
        using True by (simp add: validate_hex_color_def startswith_hash_def)
      from g True show ?thesis unfolding v
        by (auto simp: hex_group_then_dollar_def hex_run_then_dollar_cases hex_color_shape_def
              hex_digit_newline dest: hex_digits_last)
    next
      case hash: True
      with True Cons have g: "hex_group_then_dollar rest"
        by (auto simp: hex_pattern_match_def hex_group_then_dollar_def hex_run_then_dollar_def
              hex_digit_hash)
      from hash Cons have v: "validate_hex_color color = color"
        using True by (simp add: validate_hex_color_def startswith_hash_def)
      from g hash Cons True show ?thesis unfolding v
        by (auto simp: hex_group_then_dollar_def hex_run_then_dollar_cases hex_color_shape_def
              hex_digit_newline dest: hex_digits_last)
    qed
  qed
qed

section \<open>Spiral search: results\<close>

text \<open>
  C2, as the code has it. On a frame with rows, with a non-zero interval and numbers
  within the range of a float, the search raises nothing and returns the position visited
  last, a bare pair with no flag; when that position still collides and the budget is not
  negative, the whole budget was used and the warning line was printed.
  \<^verbatim>\<open>create_miro_element\<close> on such a frame does not fail either: it builds the request at the
  position the search returned and passes the printed lines on.
\<close>

theorem find_free_position_returns_last_position:
  "(increase_step_interval \<noteq> 0 \<and> existing_items \<noteq> []
    \<and> numbers_within_float_range x y width height existing_items initial_step max_attempts
    \<longrightarrow> (\<exists>px py out.
            find_free_position x y width height existing_items initial_step max_attempts
                increase_step_interval = Inr ((px, py), out)
          \<and> (px, py) = last (visited_positions x y width height existing_items initial_step
                               max_attempts increase_step_interval)
          \<and> (is_collision px py width height existing_items \<and> 0 \<le> max_attempts
               \<longrightarrow> out = [Unable_to_find_free_spot]
                   \<and> int (length (visited_positions x y width height existing_items
                                    initial_step max_attempts increase_step_interval))
                       = max_attempts + 1)))
   \<and> (existing_items \<noteq> []
      \<and> numbers_within_float_range x y (max width 256)
           (if element_type = ''card'' then adjust_card_height title height else height)
           existing_items 50 10000
      \<longrightarrow> (\<exists>px py out out' request.
            find_free_position x y (max width 256)
                (if element_type = ''card'' then adjust_card_height title height else height)
                existing_items 50 10000 100 = Inr ((px, py), out)
          \<and> build_payload element_type board_id title description fillColor shape (max width 256)
                (if element_type = ''card'' then adjust_card_height title height else height)
                px py = (out', request)
          \<and> create_miro_element element_type board_id title description fillColor shape
                width height x y existing_items = Inr (out @ out', request)))"
proof (intro conjI impI)
  assume dom: "increase_step_interval \<noteq> 0 \<and> existing_items \<noteq> []
    \<and> numbers_within_float_range x y width height existing_items initial_step max_attempts"
  then have nz: "increase_step_interval \<noteq> 0" and rows: "existing_items \<noteq> []" by simp_all
  let ?s0 = "initial_state x y initial_step"
  let ?r = "search_loop width height existing_items initial_step max_attempts
              increase_step_interval ?s0"
  from search_loop_result[OF nz, of width height existing_items initial_step max_attempts ?s0]
  obtain s' where s': "snd ?r = Inr s'" "(pos_x s', pos_y s') = last (fst ?r)"
      "\<not> (is_collision (pos_x s') (pos_y s') width height existing_items
           \<and> attempts s' < max_attempts)"
      "attempts ?s0 \<le> max_attempts \<longrightarrow> attempts s' \<le> max_attempts"
    by blast
  have a0: "attempts ?s0 = 0" by (simp add: initial_state_def)
  have len: "int (length (fst ?r)) = attempts s' - attempts ?s0 + 1"
    using search_loop_trace_count[OF nz s'(1)] .
  show "\<exists>px py out.
            find_free_position x y width height existing_items initial_step max_attempts
                increase_step_interval = Inr ((px, py), out)
          \<and> (px, py) = last (visited_positions x y width height existing_items initial_step
                               max_attempts increase_step_interval)
          \<and> (is_collision px py width height existing_items \<and> 0 \<le> max_attempts
               \<longrightarrow> out = [Unable_to_find_free_spot]
                   \<and> int (length (visited_positions x y width height existing_items
                                    initial_step max_attempts increase_step_interval))
                       = max_attempts + 1)"
    using s' a0 len rows
    by (intro exI[of _ "pos_x s'"] exI[of _ "pos_y s'"]
              exI[of _ "if attempts s' = max_attempts then [Unable_to_find_free_spot] else []"])
       (auto simp: find_free_position_def visited_positions_def)
next
  assume "existing_items \<noteq> []
      \<and> numbers_within_float_range x y (max width 256)
           (if element_type = ''card'' then adjust_card_height title height else height)
           existing_items 50 10000"
  then have rows: "existing_items \<noteq> []" by simp
  from create_miro_element_places_at_search_result[of existing_items x y width element_type
         title height board_id description fillColor shape] rows
  show "\<exists>px py out out' request.
            find_free_position x y (max width 256)
                (if element_type = ''card'' then adjust_card_height title height else height)
                existing_items 50 10000 100 = Inr ((px, py), out)
          \<and> build_payload element_type board_id title description fillColor shape (max width 256)
                (if element_type = ''card'' then adjust_card_height title height else height)
                px py = (out', request)
          \<and> create_miro_element element_type board_id title description fillColor shape
                width height x y existing_items = Inr (out @ out', request)"
    by simp
qed

theorem find_free_position_returns_last_position_witness:
  "(100::int) \<noteq> 0
   \<and> [\<lparr>item_x = 0, item_y = 0, item_width = 300, item_height = 300\<rparr>] \<noteq> []
   \<and> numbers_within_float_range 0 0 300 300
        [\<lparr>item_x = 0, item_y = 0, item_width = 300, item_height = 300\<rparr>] 50 3
   \<and> is_collision 0 50 300 300 [\<lparr>item_x = 0, item_y = 0, item_width = 300, item_height = 300\<rparr>]
   \<and> find_free_position 0 0 300 300
        [\<lparr>item_x = 0, item_y = 0, item_width = 300, item_height = 300\<rparr>] 50 3 100
      = Inr ((0, 50), [Unable_to_find_free_spot])"
proof -
  let ?items = "[\<lparr>item_x = 0, item_y = 0, item_width = 300, item_height = 300\<rparr>]"
  have trace: "visited_positions 0 0 300 300 ?items 50 3 100 = [(0, 0), (50, 0), (50, 50), (0, 50)]"
    by code_simp
  have collides: "is_collision 0 50 300 300 ?items"
    by (simp add: is_collision_def)
  have dom: "(100::int) \<noteq> 0 \<and> ?items \<noteq> [] \<and> numbers_within_float_range 0 0 300 300 ?items 50 3"
    by (simp add: numbers_within_float_range_def item_within_float_range_def
          within_float_range_def)
  from find_free_position_returns_last_position[where x = 0 and y = 0 and width = 300
      and height = 300 and existing_items = ?items and initial_step = 50 and max_attempts = 3
      and increase_step_interval = 100] dom
  obtain px py out where
    r: "find_free_position 0 0 300 300 ?items 50 3 100 = Inr ((px, py), out)"
       "(px, py) = last (visited_positions 0 0 300 300 ?items 50 3 100)"
       "is_collision px py 300 300 ?items \<and> (0::int) \<le> 3 \<longrightarrow> out = [Unable_to_find_free_spot]"
    by blast
  from r(2) trace have "px = 0" "py = 50" by simp_all
  with r(1) r(3) collides dom show ?thesis by simp
qed

text \<open>
  The claim as stated fails: the result carries no \<open>found\<close> flag. A run that uses up its
  budget of three attempts on a colliding position and a run that reaches a free position
  with its third attempt return the same pair and print the same line.
\<close>

theorem find_free_position_no_found_flag:
  "find_free_position 0 0 300 300
       [\<lparr>item_x = 0, item_y = 0, item_width = 300, item_height = 300\<rparr>] 50 3 100
     = Inr ((0, 50), [Unable_to_find_free_spot])
   \<and> is_collision 0 50 300 300 [\<lparr>item_x = 0, item_y = 0, item_width = 300, item_height = 300\<rparr>]
   \<and> find_free_position 0 0 300 300
       [\<lparr>item_x = 0, item_y = - 305, item_width = 300, item_height = 300\<rparr>,
        \<lparr>item_x = 355, item_y = 0, item_width = 300, item_height = 300\<rparr>] 50 3 100
     = Inr ((0, 50), [Unable_to_find_free_spot])
   \<and> \<not> is_collision 0 50 300 300
         [\<lparr>item_x = 0, item_y = - 305, item_width = 300, item_height = 300\<rparr>,
          \<lparr>item_x = 355, item_y = 0, item_width = 300, item_height = 300\<rparr>]"
proof -
  have "find_free_position 0 0 300 300
       [\<lparr>item_x = 0, item_y = 0, item_width = 300, item_height = 300\<rparr>] 50 3 100
     = Inr ((0, 50), [Unable_to_find_free_spot])"
    by code_simp
  moreover have "find_free_position 0 0 300 300
       [\<lparr>item_x = 0, item_y = - 305, item_width = 300, item_height = 300\<rparr>,
        \<lparr>item_x = 355, item_y = 0, item_width = 300, item_height = 300\<rparr>] 50 3 100
     = Inr ((0, 50), [Unable_to_find_free_spot])"
    by code_simp
  ultimately show ?thesis by (simp add: is_collision_def)
qed

text \<open>
  C3, as the code has it. Neither function checks the sign of a width or a height, and a
  size that is not positive is not rejected. On a frame with rows, with a non-zero interval
  and numbers within the range of a float, the search returns a position for such a size,
  and it searches with the size as given: when the anchor collides at that size and the
  budget is positive the first move of the spiral is made, otherwise the anchor is returned.
  \<^verbatim>\<open>create_miro_element\<close> searches with the width put up to 256 and the height as it is (for
  a card, as adjusted from the title), and the request carries that width and height.
\<close>

theorem non_positive_size_is_searched:
  "((width \<le> 0 \<or> height \<le> 0) \<and> increase_step_interval \<noteq> 0 \<and> existing_items \<noteq> []
    \<and> numbers_within_float_range x y width height existing_items initial_step max_attempts
    \<longrightarrow> (\<exists>px py out.
            find_free_position x y width height existing_items initial_step max_attempts
                increase_step_interval = Inr ((px, py), out))
        \<and> (if is_collision x y width height existing_items \<and> 0 < max_attempts
           then take 2 (visited_positions x y width height existing_items initial_step
                          max_attempts increase_step_interval)
                  = [(x, y), (x + initial_step, y)]
           else find_free_position x y width height existing_items initial_step max_attempts
                    increase_step_interval
                  = Inr ((x, y),
                         if max_attempts = 0 then [Unable_to_find_free_spot] else [])))
   \<and> ((width \<le> 0 \<or> height \<le> 0)
      \<and> numbers_within_float_range x y (max width 256)
           (if element_type = ''card'' then adjust_card_height title height else height)
           existing_items 50 10000
      \<longrightarrow> (\<exists>px py out out' request.
            (if existing_items = [] then Inr ((x, y), [])
             else find_free_position x y (max width 256)
                    (if element_type = ''card'' then adjust_card_height title height
                     else height)
                    existing_items 50 10000 100) = Inr ((px, py), out)
          \<and> create_miro_element element_type board_id title description fillColor shape
                width height x y existing_items = Inr (out @ out', request)
          \<and> map_option (\<lambda>(url, p). (geometry_width p, geometry_height p)) request
              = (if element_type \<in> set [''card'', ''shape'']
                 then Some (Some (max width 256),
                            (if element_type = ''card'' then adjust_card_height title height
                             else height))
                 else if element_type = ''sticky_note'' then Some (None, height)
                 else None)))"
proof (intro conjI impI)
  assume dom: "(width \<le> 0 \<or> height \<le> 0) \<and> increase_step_interval \<noteq> 0 \<and> existing_items \<noteq> []
    \<and> numbers_within_float_range x y width height existing_items initial_step max_attempts"
  then have nz: "increase_step_interval \<noteq> 0" and rows: "existing_items \<noteq> []" by simp_all
  have "\<not> isl (find_free_position x y width height existing_items initial_step max_attempts
                 increase_step_interval)"
    using nz rows by (simp add: find_free_position_isl)
  then show "\<exists>px py out.
            find_free_position x y width height existing_items initial_step max_attempts
                increase_step_interval = Inr ((px, py), out)"
    by (cases "find_free_position x y width height existing_items initial_step max_attempts
                 increase_step_interval") auto
  show "if is_collision x y width height existing_items \<and> 0 < max_attempts
           then take 2 (visited_positions x y width height existing_items initial_step
                          max_attempts increase_step_interval)
                  = [(x, y), (x + initial_step, y)]
           else find_free_position x y width height existing_items initial_step max_attempts
                    increase_step_interval
                  = Inr ((x, y),
                         if max_attempts = 0 then [Unable_to_find_free_spot] else [])"
  proof (cases "is_collision x y width height existing_items \<and> 0 < max_attempts")
    case True
    then have "take 2 (fst (search_loop width height existing_items initial_step max_attempts
                  increase_step_interval (initial_state x y initial_step)))
        = (x, y) # take (Suc 0) (fst (search_loop width height existing_items initial_step
                     max_attempts increase_step_interval
                     (loop_body initial_step increase_step_interval
                        (initial_state x y initial_step))))"
      using nz by (subst take_trace_continue) (simp_all add: initial_state_def)
    also have "\<dots> = [(x, y), (x + initial_step, y)]"
      by (simp add: take_trace_one loop_body_def initial_state_def Let_def)
    finally show ?thesis using True by (simp add: visited_positions_def)
  next
    case False
    then have "search_loop width height existing_items initial_step max_attempts
                  increase_step_interval (initial_state x y initial_step)
        = ([(x, y)], Inr (initial_state x y initial_step))"
      by (subst search_loop_stop) (simp_all add: initial_state_def)
    with False rows show ?thesis
      by (auto simp: find_free_position_def initial_state_def)
  qed
next
  let ?h = "if element_type = ''card'' then adjust_card_height title height else height"
  from create_miro_element_places_at_search_result[of existing_items x y width element_type
         title height board_id description fillColor shape]
  obtain px py out out' request where
    f: "(if existing_items = [] then Inr ((x, y), [])
         else find_free_position x y (max width 256) ?h existing_items 50 10000 100)
          = Inr ((px, py), out)"
    and b: "build_payload element_type board_id title description fillColor shape
              (max width 256) ?h px py = (out', request)"
    and c: "create_miro_element element_type board_id title description fillColor shape
              width height x y existing_items = Inr (out @ out', request)"
    by blast
  have "map_option (\<lambda>(url, p). (geometry_width p, geometry_height p)) request
              = (if element_type \<in> set [''card'', ''shape'']
                 then Some (Some (max width 256), ?h)
                 else if element_type = ''sticky_note'' then Some (None, height)
                 else None)"
    using b by (auto simp: build_payload_def split: prod.splits if_splits)
  with f c show "\<exists>px py out out' request.
            (if existing_items = [] then Inr ((x, y), [])
             else find_free_position x y (max width 256) ?h existing_items 50 10000 100)
              = Inr ((px, py), out)
          \<and> create_miro_element element_type board_id title description fillColor shape
                width height x y existing_items = Inr (out @ out', request)
          \<and> map_option (\<lambda>(url, p). (geometry_width p, geometry_height p)) request
              = (if element_type \<in> set [''card'', ''shape'']
                 then Some (Some (max width 256), ?h)
                 else if element_type = ''sticky_note'' then Some (None, height)
                 else None)"
    by blast
qed

theorem non_positive_size_is_searched_witness:
  "((0::rat) \<le> 0 \<or> (0::rat) \<le> 0) \<and> (100::int) \<noteq> 0
   \<and> [\<lparr>item_x = 0, item_y = 0, item_width = 10, item_height = 10\<rparr>] \<noteq> []
   \<and> numbers_within_float_range 0 0 0 0
        [\<lparr>item_x = 0, item_y = 0, item_width = 10, item_height = 10\<rparr>] 50 10000
   \<and> is_collision 0 0 0 0 [\<lparr>item_x = 0, item_y = 0, item_width = 10, item_height = 10\<rparr>]
   \<and> take 2 (visited_positions 0 0 0 0
                [\<lparr>item_x = 0, item_y = 0, item_width = 10, item_height = 10\<rparr>] 50 10000 100)
       = [(0, 0), (50, 0)]"
proof -
  let ?items = "[\<lparr>item_x = 0, item_y = 0, item_width = 10, item_height = 10\<rparr>]"
  have dom: "((0::rat) \<le> 0 \<or> (0::rat) \<le> 0) \<and> (100::int) \<noteq> 0 \<and> ?items \<noteq> []
      \<and> numbers_within_float_range 0 0 0 0 ?items 50 10000"
    by (simp add: numbers_within_float_range_def item_within_float_range_def
          within_float_range_def)
  have collides: "is_collision 0 0 0 0 ?items \<and> (0::int) < 10000"
    by (simp add: is_collision_def)
  from non_positive_size_is_searched[where x = 0 and y = 0 and width = 0 and height = 0
      and existing_items = ?items and initial_step = 50 and max_attempts = 10000
      and increase_step_interval = 100] dom
  have "if is_collision 0 0 0 0 ?items \<and> (0::int) < 10000
        then take 2 (visited_positions 0 0 0 0 ?items 50 10000 100) = [(0, 0), (0 + 50, 0)]
        else find_free_position 0 0 0 0 ?items 50 10000 100
               = Inr ((0, 0), if (10000::int) = 0 then [Unable_to_find_free_spot] else [])"
    by blast
  with collides dom show ?thesis by simp
qed

text \<open>
  The claim as stated fails: with width and height zero the search is not rejected, it
  steps from the colliding anchor to \<open>(50, 0)\<close>; \<^verbatim>\<open>create_miro_element\<close> with width and height
  zero searches with width 256 and height zero and builds the request at \<open>(50, 50)\<close>.
\<close>

theorem zero_size_is_searched:
  "find_free_position 0 0 0 0
       [\<lparr>item_x = 0, item_y = 0, item_width = 10, item_height = 10\<rparr>] 50 10000 100
     = Inr ((50, 0), [])
   \<and> visited_positions 0 0 0 0
       [\<lparr>item_x = 0, item_y = 0, item_width = 10, item_height = 10\<rparr>] 50 10000 100
     = [(0, 0), (50, 0)]
   \<and> create_miro_element ''shape'' ''b'' ''t'' None ''red'' ''rectangle'' 0 0 0 0
       [\<lparr>item_x = 0, item_y = 0, item_width = 10, item_height = 10\<rparr>]
     = Inr ([], Some (''https://api.miro.com/v2/boards/b/shapes'',
          \<lparr>data_text = ''t'', data_description = None, data_shape = Some ''rectangle'',
           style_color = ''#00C1D4'', position_x = 50, position_y = 50,
           geometry_height = 0, geometry_width = Some 256\<rparr>))"
  by code_simp

text \<open>
  C4. The search is a total function, and for a budget \<open>N\<close> (a number of attempts, so
  not negative) the collision test is evaluated at no more than \<open>N + 1\<close> positions, the
  anchor included.
\<close>

theorem search_evaluates_at_most_budget_plus_one:
  assumes "0 \<le> N"
  shows "int (length (visited_positions x y width height existing_items initial_step N
                        increase_step_interval)) \<le> N + 1"
  using assms search_loop_trace_length[of width height existing_items initial_step N
          increase_step_interval "initial_state x y initial_step"]
  by (simp add: visited_positions_def initial_state_def max.commute)

theorem search_evaluates_at_most_budget_plus_one_witness:
  "(0::int) \<le> 3
   \<and> length (visited_positions 0 0 300 300
               [\<lparr>item_x = 0, item_y = 0, item_width = 300, item_height = 300\<rparr>] 50 3 100) = 4
   \<and> int (length (visited_positions 0 0 300 300
               [\<lparr>item_x = 0, item_y = 0, item_width = 300, item_height = 300\<rparr>] 50 3 100))
       \<le> 3 + 1"
proof -
  have budget: "(0::int) \<le> 3" by simp
  have "visited_positions 0 0 300 300
          [\<lparr>item_x = 0, item_y = 0, item_width = 300, item_height = 300\<rparr>] 50 3 100
        = [(0, 0), (50, 0), (50, 50), (0, 50)]"
    by code_simp
  then have "length (visited_positions 0 0 300 300
          [\<lparr>item_x = 0, item_y = 0, item_width = 300, item_height = 300\<rparr>] 50 3 100) = 4"
    by simp
  with budget search_evaluates_at_most_budget_plus_one[OF budget, of 0 0 300 300
      "[\<lparr>item_x = 0, item_y = 0, item_width = 300, item_height = 300\<rparr>]" 50 100]
  show ?thesis by simp
qed

text \<open>
  C5. From the anchor \<open>(0, 0)\<close> with an initial step of 50, when the first nine
  candidate positions all collide (and the budget and the growth interval are beyond the
  eight moves, as the defaults are), the positions visited after the anchor begin
  \<open>(50, 0), (50, 50), (0, 50), (- 50, 50), (- 50, 0), (- 50, - 50), (0, - 50), (50, - 50)\<close>:
  legs of length 1, 1, 2, 2, 3 in the directions +x, +y, -x, -y, +x.
\<close>

theorem spiral_leg_trace:
  assumes "list_all (\<lambda>(px, py). is_collision px py width height existing_items)
             [(0, 0), (50, 0), (50, 50), (0, 50), (- 50, 50), (- 50, 0), (- 50, - 50),
              (0, - 50), (50, - 50)]"
    and "8 \<le> max_attempts" and "8 < increase_step_interval"
  shows "take 8 (tl (visited_positions 0 0 width height existing_items 50 max_attempts
                       increase_step_interval))
         = [(50, 0), (50, 50), (0, 50), (- 50, 50), (- 50, 0), (- 50, - 50), (0, - 50),
            (50, - 50)]"
proof -
  have "take 9 (visited_positions 0 0 width height existing_items 50 max_attempts
                  increase_step_interval)
     = [(0, 0), (50, 0), (50, 50), (0, 50), (- 50, 50), (- 50, 0), (- 50, - 50), (0, - 50),
        (50, - 50)]"
    using assms
    by (simp add: visited_positions_def initial_state_def take_trace_continue take_trace_one
          loop_body_def Let_def)
  then have "tl (take 9 (visited_positions 0 0 width height existing_items 50 max_attempts
                           increase_step_interval))
     = [(50, 0), (50, 50), (0, 50), (- 50, 50), (- 50, 0), (- 50, - 50), (0, - 50), (50, - 50)]"
    by simp
  then show ?thesis by (simp add: tl_take)
qed

theorem spiral_leg_trace_witness:
  "list_all (\<lambda>(px, py). is_collision px py 300 300
                [\<lparr>item_x = 0, item_y = 0, item_width = 300, item_height = 300\<rparr>])
     [(0, 0), (50, 0), (50, 50), (0, 50), (- 50, 50), (- 50, 0), (- 50, - 50), (0, - 50),
      (50, - 50)]
   \<and> (8::int) \<le> 10000 \<and> (8::int) < 100
   \<and> take 8 (tl (visited_positions 0 0 300 300
                   [\<lparr>item_x = 0, item_y = 0, item_width = 300, item_height = 300\<rparr>]
                   50 10000 100))
       = [(50, 0), (50, 50), (0, 50), (- 50, 50), (- 50, 0), (- 50, - 50), (0, - 50),
          (50, - 50)]"
proof -
  have collide: "list_all (\<lambda>(px, py). is_collision px py 300 300
                [\<lparr>item_x = 0, item_y = 0, item_width = 300, item_height = 300\<rparr>])
     [(0, 0), (50, 0), (50, 50), (0, 50), (- 50, 50), (- 50, 0), (- 50, - 50), (0, - 50),
      (50, - 50)]"
    by (simp add: is_collision_def)
  have budget: "(8::int) \<le> 10000" and interval: "(8::int) < 100" by simp_all
  from spiral_leg_trace[OF collide budget interval] collide show ?thesis by simp
qed

text \<open>
  C6. In a run with a non-zero interval the positions visited are those of the states
  \<open>run_state \<dots> 0\<close>, \<open>run_state \<dots> 1\<close>, \<dots>; the state after \<open>n\<close> passes has made \<open>n\<close> attempts. The step
  grows by the initial step exactly in the passes whose attempt number is a multiple of the
  interval and is unchanged otherwise, the four direction vectors are always those of the
  current step, and the magnitude of the step never decreases. The length of the current
  leg and the number of steps taken in it follow the leg rule alone, whether or not the step
  grew in that pass: they are neither reset nor rescaled.
\<close>

theorem step_growth_keeps_leg_counters:
  assumes "increase_step_interval \<noteq> 0"
  shows "(\<exists>m. visited_positions x y width height existing_items initial_step max_attempts
                increase_step_interval
              = map (\<lambda>k. (pos_x (run_state x y initial_step increase_step_interval k),
                           pos_y (run_state x y initial_step increase_step_interval k)))
                  [0..<Suc m])
       \<and> attempts (run_state x y initial_step increase_step_interval n) = int n
       \<and> step (run_state x y initial_step increase_step_interval (Suc n))
           = (if (int n + 1) mod increase_step_interval = 0
              then step (run_state x y initial_step increase_step_interval n) + initial_step
              else step (run_state x y initial_step increase_step_interval n))
       \<and> directions (run_state x y initial_step increase_step_interval n)
           = [(step (run_state x y initial_step increase_step_interval n), 0),
              (0, step (run_state x y initial_step increase_step_interval n)),
              (- step (run_state x y initial_step increase_step_interval n), 0),
              (0, - step (run_state x y initial_step increase_step_interval n))]
       \<and> \<bar>step (run_state x y initial_step increase_step_interval n)\<bar>
           \<le> \<bar>step (run_state x y initial_step increase_step_interval (n + k))\<bar>
       \<and> steps_in_current_leg (run_state x y initial_step increase_step_interval (Suc n))
           = (if steps_taken (run_state x y initial_step increase_step_interval n) + 1
                   = steps_in_current_leg (run_state x y initial_step increase_step_interval n)
                 \<and> leg_increase_triggered (run_state x y initial_step increase_step_interval n)
              then steps_in_current_leg (run_state x y initial_step increase_step_interval n) + 1
              else steps_in_current_leg (run_state x y initial_step increase_step_interval n))
       \<and> steps_taken (run_state x y initial_step increase_step_interval (Suc n))
           = (if steps_taken (run_state x y initial_step increase_step_interval n) + 1
                   = steps_in_current_leg (run_state x y initial_step increase_step_interval n)
              then 0
              else steps_taken (run_state x y initial_step increase_step_interval n) + 1)"
proof (intro conjI)
  from search_loop_iterates[OF assms, of width height existing_items initial_step max_attempts
         "initial_state x y initial_step"]
  obtain m where
    "fst (search_loop width height existing_items initial_step max_attempts
            increase_step_interval (initial_state x y initial_step))
       = map (\<lambda>k. (pos_x ((loop_body initial_step increase_step_interval ^^ k)
                             (initial_state x y initial_step)),
                    pos_y ((loop_body initial_step increase_step_interval ^^ k)
                             (initial_state x y initial_step))))
           [0..<Suc m]"
    by blast
  then show "\<exists>m. visited_positions x y width height existing_items initial_step max_attempts
                increase_step_interval
              = map (\<lambda>k. (pos_x (run_state x y initial_step increase_step_interval k),
                           pos_y (run_state x y initial_step increase_step_interval k)))
                  [0..<Suc m]"
    unfolding visited_positions_def run_state_def by blast
qed (simp_all add: run_state_attempts run_state_directions run_state_step_mono
       run_state_Suc loop_body_step loop_body_steps_in_current_leg loop_body_steps_taken)

theorem step_growth_keeps_leg_counters_witness:
  "(2::int) \<noteq> 0
   \<and> step (run_state 0 0 50 2 1) = 50
   \<and> step (run_state 0 0 50 2 2) = 100
   \<and> steps_in_current_leg (run_state 0 0 50 2 1) = 1
   \<and> steps_in_current_leg (run_state 0 0 50 2 2) = 2"
proof -
  have nz: "(2::int) \<noteq> 0" by simp
  have before: "step (run_state 0 0 50 2 1) = 50"
      "steps_in_current_leg (run_state 0 0 50 2 1) = 1"
      "steps_taken (run_state 0 0 50 2 1) = 0"
      "leg_increase_triggered (run_state 0 0 50 2 1)"
    by (simp_all add: run_state_def initial_state_def loop_body_def Let_def)
  note growth = step_growth_keeps_leg_counters[OF nz, where x = 0 and y = 0
      and initial_step = 50 and n = 1]
  from growth have "step (run_state 0 0 50 2 (Suc 1))
      = (if (int 1 + 1) mod 2 = 0 then step (run_state 0 0 50 2 1) + 50
         else step (run_state 0 0 50 2 1))"
    by blast
  moreover from growth have "steps_in_current_leg (run_state 0 0 50 2 (Suc 1))
      = (if steps_taken (run_state 0 0 50 2 1) + 1 = steps_in_current_leg (run_state 0 0 50 2 1)
            \<and> leg_increase_triggered (run_state 0 0 50 2 1)
         then steps_in_current_leg (run_state 0 0 50 2 1) + 1
         else steps_in_current_leg (run_state 0 0 50 2 1))"
    by blast
  ultimately show ?thesis using before by (simp add: numeral_2_eq_2)
qed

text \<open>
  C7. One existing rectangle centred at \<open>(0, 0)\<close> of size 300 by 300, a 300 by 300 item
  requested at \<open>(0, 0)\<close>, default step, budget and interval: the search returns
  \<open>(- 250, - 350)\<close>, reached with attempt 106 after the step has grown to 100, and the
  collision test at that position reports no overlap.
\<close>

theorem single_obstacle_placement:
  "find_free_position 0 0 300 300
       [\<lparr>item_x = 0, item_y = 0, item_width = 300, item_height = 300\<rparr>] 50 10000 100
     = Inr ((- 250, - 350), [])
   \<and> \<not> is_collision (- 250) (- 350) 300 300
         [\<lparr>item_x = 0, item_y = 0, item_width = 300, item_height = 300\<rparr>]"
  by (simp add: find_free_position_def initial_state_def search_loop_continue search_loop_stop
        loop_body_def Let_def is_collision_def)

section \<open>Placement: results\<close>

text \<open>
  C8. With an empty snapshot \<^verbatim>\<open>create_miro_element\<close> builds its request straight from the
  arguments, without the search: for every requested size the position in the request is
  the anchor \<open>(x, y)\<close> (an element type that is not known gives no request at all).
\<close>

theorem empty_snapshot_keeps_anchor:
  "create_miro_element element_type board_id title description fillColor shape width height
       x y []
     = (case build_payload element_type board_id title description fillColor shape
               (max width 256)
               (if element_type = ''card'' then adjust_card_height title height else height)
               x y of
          (out, request) \<Rightarrow> Inr (out, request))
   \<and> (\<exists>out request.
         create_miro_element element_type board_id title description fillColor shape
             width height x y [] = Inr (out, request)
       \<and> map_option (\<lambda>(url, p). (position_x p, position_y p)) request
           = (if element_type \<in> set [''card'', ''sticky_note'', ''shape'']
              then Some (x, y) else None))"
proof -
  let ?b = "build_payload element_type board_id title description fillColor shape
              (max width 256)
              (if element_type = ''card'' then adjust_card_height title height else height)
              x y"
  have eq: "create_miro_element element_type board_id title description fillColor shape
              width height x y []
            = (case ?b of (out, request) \<Rightarrow> Inr (out, request))"
    by (simp add: create_miro_element_def Let_def)
  have "create_miro_element element_type board_id title description fillColor shape
              width height x y [] = Inr (fst ?b, snd ?b)"
    unfolding eq by (simp add: case_prod_beta)
  moreover have "map_option (\<lambda>(url, p). (position_x p, position_y p)) (snd ?b)
           = (if element_type \<in> set [''card'', ''sticky_note'', ''shape'']
              then Some (x, y) else None)"
    by (rule build_payload_position)
  ultimately show ?thesis using eq by blast
qed

text \<open>
  C9, as the code has it. \<^verbatim>\<open>create_miro_element\<close> itself adjusts the height of a card:
  the search is run with, and the request carries, the height returned by
  \<^verbatim>\<open>adjust_card_height\<close>, which adds 25 for every full 13 characters of the title (without
  its line breaks) beyond the first 13 and 20 for every line break. For the other element
  types the height is the one supplied.
\<close>

theorem card_height_adjusted_in_placement:
  "(\<exists>px py out out' request.
       (if existing_items = [] then Inr ((x, y), [])
        else find_free_position x y (max width 256)
               (if element_type = ''card'' then adjust_card_height title height else height)
               existing_items 50 10000 100) = Inr ((px, py), out)
     \<and> create_miro_element element_type board_id title description fillColor shape
           width height x y existing_items = Inr (out @ out', request)
     \<and> map_option (\<lambda>(url, p). ((position_x p, position_y p), geometry_height p)) request
         = (if element_type \<in> set [''card'', ''sticky_note'', ''shape'']
            then Some ((px, py),
                       (if element_type = ''card'' then adjust_card_height title height
                        else height))
            else None))
   \<and> adjust_card_height title height
       = height
         + of_int (if int (length title) - 4 * int (count_br title) > 13
                   then ((int (length title) - 4 * int (count_br title) - 1) div 13) * 25
                   else 0)
         + of_int (int (count_br title) * 20)"
proof
  let ?h = "if element_type = ''card'' then adjust_card_height title height else height"
  from create_miro_element_places_at_search_result[of existing_items x y width element_type
         title height board_id description fillColor shape]
  obtain px py out out' request where
    f: "(if existing_items = [] then Inr ((x, y), [])
         else find_free_position x y (max width 256) ?h existing_items 50 10000 100)
          = Inr ((px, py), out)"
    and b: "build_payload element_type board_id title description fillColor shape
              (max width 256) ?h px py = (out', request)"
    and c: "create_miro_element element_type board_id title description fillColor shape
              width height x y existing_items = Inr (out @ out', request)"
    by blast
  have "map_option (\<lambda>(url, p). ((position_x p, position_y p), geometry_height p)) request
         = (if element_type \<in> set [''card'', ''sticky_note'', ''shape'']
            then Some ((px, py), ?h) else None)"
    using b by (auto simp: build_payload_def split: prod.splits if_splits)
  with f c show "\<exists>px py out out' request.
       (if existing_items = [] then Inr ((x, y), [])
        else find_free_position x y (max width 256) ?h existing_items 50 10000 100)
         = Inr ((px, py), out)
     \<and> create_miro_element element_type board_id title description fillColor shape
           width height x y existing_items = Inr (out @ out', request)
     \<and> map_option (\<lambda>(url, p). ((position_x p, position_y p), geometry_height p)) request
         = (if element_type \<in> set [''card'', ''sticky_note'', ''shape'']
            then Some ((px, py), ?h) else None)"
    by blast
next
  show "adjust_card_height title height
       = height
         + of_int (if int (length title) - 4 * int (count_br title) > 13
                   then ((int (length title) - 4 * int (count_br title) - 1) div 13) * 25
                   else 0)
         + of_int (int (count_br title) * 20)"
    by (rule adjust_card_height_closed_form)
qed

text \<open>
  The claim as stated fails: a card of supplied height 300 whose title holds one line
  break is searched and emitted with height 320. The obstacle below leaves the anchor free
  for height 300 and blocks it for height 320, so the card ends at \<open>(- 50, - 50)\<close>.
\<close>

theorem placement_adjusts_card_height:
  "create_miro_element ''card'' ''b'' ''Titel<br>x'' None ''red'' ''rectangle'' 300 300 0 0
       [\<lparr>item_x = 0, item_y = 340, item_width = 10, item_height = 300\<rparr>]
     = Inr ([], Some (''https://api.miro.com/v2/boards/b/cards'',
          \<lparr>data_text = ''Titel<br>x'', data_description = None, data_shape = None,
           style_color = ''#00C1D4'', position_x = - 50, position_y = - 50,
           geometry_height = 320, geometry_width = Some 300\<rparr>))
   \<and> find_free_position 0 0 300 300
       [\<lparr>item_x = 0, item_y = 340, item_width = 10, item_height = 300\<rparr>] 50 10000 100
     = Inr ((0, 0), [])"
  by code_simp

section \<open>Colour validation: results\<close>

text \<open>
  C10. The result of \<^verbatim>\<open>validate_hex_color\<close> is not always \<^verbatim>\<open>#\<close> followed by three or six
  hexadecimal digits: the \<^verbatim>\<open>$\<close> of the pattern also matches before a final newline, so the
  input \<^verbatim>\<open>fff\<close> followed by a newline is accepted and comes back with the newline still
  in it. By \<open>validate_hex_color_shape_iff\<close> these inputs are the only ones for which the
  shape is missed.
\<close>

theorem validate_hex_color_keeps_trailing_newline:
  "validate_hex_color (''fff'' @ [CHR 0x0A]) = ''#fff'' @ [CHR 0x0A]
   \<and> \<not> hex_color_shape (validate_hex_color (''fff'' @ [CHR 0x0A]))"
  by code_simp

end
